theory Spec2Isabelle
  imports Complex_Main "HOL-Library.Word"
begin

unbundle bit_operations_syntax

section \<open>JavaScript values used by the program\<close>

text \<open>
  A \<^verbatim>\<open>Uint8Array\<close> (and \<^verbatim>\<open>Uint8ClampedArray\<close> read-only) is a list of
  bytes. A JavaScript string is a list of UTF-16 code units, each given by its
  number (\<^verbatim>\<open>charCodeAt\<close>); the ramp \<^verbatim>\<open>' .:+*#@'\<close> is
  \<open>[32, 46, 58, 43, 42, 35, 64]\<close>.
\<close>

type_synonym byte = "8 word"
type_synonym codeunit = nat
type_synonym jsstring = "codeunit list"

text \<open>\<^verbatim>\<open>ToInt32\<close> and \<^verbatim>\<open>ToUint32\<close> of an integral number, and
  the operators \<^verbatim>\<open>x >> n\<close>, \<^verbatim>\<open>x << n\<close> built on them.\<close>

definition ToInt32 :: "int \<Rightarrow> int" where
  "ToInt32 x = (x + 2 ^ 31) mod 2 ^ 32 - 2 ^ 31"

definition ToUint32 :: "int \<Rightarrow> int" where
  "ToUint32 x = x mod 2 ^ 32"

definition js_sar :: "int \<Rightarrow> nat \<Rightarrow> int" where
  "js_sar x n = ToInt32 x div 2 ^ (n mod 32)"

definition js_shl :: "int \<Rightarrow> nat \<Rightarrow> int" where
  "js_shl x n = ToInt32 (ToInt32 x * 2 ^ (n mod 32))"

text \<open>Reading \<^verbatim>\<open>a[i]\<close>: \<open>None\<close> is \<^verbatim>\<open>undefined\<close>.\<close>

definition js_get :: "'a list \<Rightarrow> int \<Rightarrow> 'a option" where
  "js_get xs i = (if 0 \<le> i \<and> i < int (length xs) then Some (xs ! nat i) else None)"

section \<open>The renderer: \<^verbatim>\<open>src/core/ASCIIRenderer.ts\<close>\<close>

text \<open>Rec. 709 luminance coefficients, scaled by 256.\<close>

definition LUMA_R :: int where "LUMA_R = 54"
definition LUMA_G :: int where "LUMA_G = 183"
definition LUMA_B :: int where "LUMA_B = 19"

text \<open>\<^verbatim>\<open>(LUMA_R * avgR + LUMA_G * avgG + LUMA_B * avgB) >> 8\<close>, as in
  \<^verbatim>\<open>render\<close>, \<^verbatim>\<open>convertToASCII\<close> and the worker's
  \<^verbatim>\<open>fastLuminance\<close>.\<close>

definition fastLuminance :: "int \<Rightarrow> int \<Rightarrow> int \<Rightarrow> int" where
  "fastLuminance r g b = js_sar (LUMA_R * r + LUMA_G * g + LUMA_B * b) 8"

definition minimal_ramp :: jsstring where
  "minimal_ramp = [32, 46, 58, 43, 42, 35, 64]"






datatype RenderColorMode = RMono | RColor | RPalette

text \<open>The fields of the class that the options and the lookup table touch. The glyph
  cache, the canvases and the reusable output buffers hold no option and are left out.\<close>

record ASCIIRenderer =
  r_ramp :: jsstring
  r_rampCodes :: "byte list"
  r_colorMode :: RenderColorMode
  r_invert :: bool
  r_cols :: rat
  r_lumToCharLUT :: "byte list"

text \<open>One entry of the table: \<^verbatim>\<open>Math.min(Math.floor((adjusted * rampLen) / 256), rampLen - 1)\<close>
  stored into a \<^verbatim>\<open>Uint8Array\<close>, which keeps the value modulo 256. The division
  by 256 is exact in doubles, so \<^verbatim>\<open>Math.floor\<close> of it is integer division.\<close>

definition lutValue :: "bool \<Rightarrow> int \<Rightarrow> int \<Rightarrow> int" where
  "lutValue invert rampLen lum =
     (let adjusted = (if invert then 255 - lum else lum)
      in min ((adjusted * rampLen) div 256) (rampLen - 1))"

definition lutEntry :: "bool \<Rightarrow> int \<Rightarrow> int \<Rightarrow> byte" where
  "lutEntry invert rampLen lum = of_int (lutValue invert rampLen lum)"

definition buildLumLUT :: "ASCIIRenderer \<Rightarrow> ASCIIRenderer" where
  "buildLumLUT st =
     st\<lparr>r_lumToCharLUT :=
          map (\<lambda>lum. lutEntry (r_invert st) (int (length (r_ramp st))) (int lum)) [0..<256]\<rparr>"

definition updateRampCodes :: "ASCIIRenderer \<Rightarrow> ASCIIRenderer" where
  "updateRampCodes st =
     buildLumLUT (st\<lparr>r_rampCodes := map (\<lambda>c. of_nat c) (r_ramp st)\<rparr>)"

text \<open>The state the constructor leaves: the field initialisers, then
  \<^verbatim>\<open>updateRampCodes\<close> and \<^verbatim>\<open>buildLumLUT\<close>.\<close>

definition newRenderer :: ASCIIRenderer where
  "newRenderer =
     buildLumLUT (updateRampCodes
       \<lparr>r_ramp = minimal_ramp, r_rampCodes = [], r_colorMode = RMono, r_invert = False,
        r_cols = 80, r_lumToCharLUT = replicate 256 0\<rparr>)"










section \<open>Animation data: \<^verbatim>\<open>types.ts\<close>\<close>

datatype ColorMode = Mono | Rgb | Palette

text \<open>The value of a quotient of two non-negative integers, \<^verbatim>\<open>a / b\<close>: the
  exact quotient stands for the double nearest to it.\<close>

datatype jsnumber = Finite rat | Infinity | NaN

definition js_div :: "nat \<Rightarrow> nat \<Rightarrow> jsnumber" where
  "js_div a b =
     (if b = 0 then (if a = 0 then NaN else Infinity) else Finite (of_nat a / of_nat b))"

record ASCIIAnimationMeta =
  m_version :: nat
  m_cols :: nat
  m_rows :: nat
  m_fps :: nat
  m_frameCount :: nat
  m_duration :: jsnumber
  m_colorMode :: ColorMode
  m_palette :: "jsstring list option"
  m_ramp :: jsstring

text \<open>\<^verbatim>\<open>DeltaChange\<close>. The field \<^verbatim>\<open>char\<close> is a string of one code unit
  wherever the program builds a change (\<^verbatim>\<open>curr.chars[i]\<close> in
  \<^verbatim>\<open>computeDelta\<close>, \<^verbatim>\<open>String.fromCharCode(byte)\<close> in
  \<^verbatim>\<open>decodeBinary\<close>); it is modelled as that code unit. An absent colour field
  is \<open>None\<close>.\<close>

record DeltaChange =
  dc_index :: int
  dc_char :: codeunit
  dc_colorR :: "nat option"
  dc_colorG :: "nat option"
  dc_colorB :: "nat option"

text \<open>\<^verbatim>\<open>ASCIIFrame = ASCIIFrameFull | ASCIIFrameDelta\<close>. The colours of a full
  frame are a \<^verbatim>\<open>Uint8Array\<close> in the preprocessor and
  \<^verbatim>\<open>number[] | Uint8Array\<close> in the player, which converts them with
  \<^verbatim>\<open>new Uint8Array(frame.colors)\<close>; they are modelled as bytes.\<close>

datatype ASCIIFrame =
    Full jsstring "byte list option"
  | Delta "DeltaChange list"

record ASCIIAnimation =
  a_meta :: ASCIIAnimationMeta
  a_frames :: "ASCIIFrame list"

text \<open>\<^verbatim>\<open>ConvertedFrame\<close> of \<^verbatim>\<open>asciiConverter.ts\<close>.\<close>

record ConvertedFrame =
  cf_chars :: jsstring
  cf_colors :: "byte list"
  cf_rows :: int
  cf_cols :: int

text \<open>The errors. \<open>BadMagic\<close> is thrown by \<^verbatim>\<open>decodeBinary\<close>,
  \<open>UnsupportedFormat\<close> by \<^verbatim>\<open>loadAnimation\<close>, \<open>RangeError\<close> by the
  JavaScript runtime (a \<^verbatim>\<open>DataView\<close> read past the end of the buffer, an
  invalid array length). \<open>TruncatedStream\<close>, \<open>UnsupportedRampLength\<close> and
  \<open>InvalidDimensions\<close> are the remaining names of the specification's taxonomy.\<close>

datatype error =
    BadMagic
  | UnsupportedFormat
  | RangeError
  | TruncatedStream
  | UnsupportedRampLength
  | InvalidDimensions

section \<open>Delta compression: \<^verbatim>\<open>compress.ts\<close>\<close>

text \<open>\<^verbatim>\<open>DELTA_THRESHOLD = 0.4\<close>. The test
  \<^verbatim>\<open>changes.length > curr.chars.length * DELTA_THRESHOLD\<close> compares an integer
  \<open>k\<close> with the rounded product of an integer \<open>n\<close> and the double nearest to
  \<open>0.4\<close>. For a length \<open>n\<close> below \<open>2^31\<close>, which bounds the length of every
  string, the rounded product differs from \<open>2 * n / 5\<close> by less than \<open>10^-6\<close> and
  is not below it when it is an integer, so the test holds exactly when
  \<open>5 * k > 2 * n\<close>: the comparison with the exact product, taken here. (From
  \<open>2^51\<close> on the two comparisons can differ.)\<close>

definition DELTA_THRESHOLD :: rat where
  "DELTA_THRESHOLD = 4 / 10"

text \<open>The body of the loop of \<^verbatim>\<open>computeDelta\<close> at cell \<open>i\<close>: the two tests and
  the change record. A read past the end of an array is \<^verbatim>\<open>undefined\<close>.\<close>

definition charChanged :: "ConvertedFrame \<Rightarrow> ConvertedFrame \<Rightarrow> nat \<Rightarrow> bool" where
  "charChanged prev cur i =
     (js_get (cf_chars cur) (int i) \<noteq> js_get (cf_chars prev) (int i))"

definition colorChanged :: "ConvertedFrame \<Rightarrow> ConvertedFrame \<Rightarrow> bool \<Rightarrow> nat \<Rightarrow> bool" where
  "colorChanged prev cur includeColors i =
     (includeColors \<and>
       (js_get (cf_colors cur) (int i * 3) \<noteq> js_get (cf_colors prev) (int i * 3) \<or>
        js_get (cf_colors cur) (int i * 3 + 1) \<noteq> js_get (cf_colors prev) (int i * 3 + 1) \<or>
        js_get (cf_colors cur) (int i * 3 + 2) \<noteq> js_get (cf_colors prev) (int i * 3 + 2)))"

definition mkChange :: "ConvertedFrame \<Rightarrow> bool \<Rightarrow> nat \<Rightarrow> DeltaChange" where
  "mkChange cur includeColors i =
     \<lparr>dc_index = int i,
      dc_char = cf_chars cur ! i,
      dc_colorR = (if includeColors
                   then map_option unat (js_get (cf_colors cur) (int i * 3)) else None),
      dc_colorG = (if includeColors
                   then map_option unat (js_get (cf_colors cur) (int i * 3 + 1)) else None),
      dc_colorB = (if includeColors
                   then map_option unat (js_get (cf_colors cur) (int i * 3 + 2)) else None)\<rparr>"

text \<open>The list \<^verbatim>\<open>changes\<close> after the loop over \<open>i = 0, ..., curr.chars.length - 1\<close>.\<close>

definition deltaChanges :: "ConvertedFrame \<Rightarrow> ConvertedFrame \<Rightarrow> bool \<Rightarrow> DeltaChange list" where
  "deltaChanges prev cur includeColors =
     map (mkChange cur includeColors)
       (filter (\<lambda>i. charChanged prev cur i \<or> colorChanged prev cur includeColors i)
          [0..<length (cf_chars cur)])"

definition computeDelta :: "ConvertedFrame \<Rightarrow> ConvertedFrame \<Rightarrow> bool \<Rightarrow> ASCIIFrame" where
  "computeDelta prev cur includeColors =
     (let changes = deltaChanges prev cur includeColors
      in if of_nat (length changes) > of_nat (length (cf_chars cur)) * DELTA_THRESHOLD
         then Full (cf_chars cur) (if includeColors then Some (cf_colors cur) else None)
         else Delta changes)"

definition createFullFrame :: "ConvertedFrame \<Rightarrow> bool \<Rightarrow> ASCIIFrame" where
  "createFullFrame frame includeColors =
     Full (cf_chars frame) (if includeColors then Some (cf_colors frame) else None)"

text \<open>The frame loop of the preprocessor's \<^verbatim>\<open>main\<close>: the first frame is stored in
  full, every later one is \<^verbatim>\<open>computeDelta(prevFrame, converted, includeColors)\<close>.\<close>

fun encodeFrames :: "bool \<Rightarrow> ConvertedFrame option \<Rightarrow> ConvertedFrame list \<Rightarrow> ASCIIFrame list" where
  "encodeFrames includeColors prevFrame [] = []"
| "encodeFrames includeColors None (converted # rest) =
     createFullFrame converted includeColors # encodeFrames includeColors (Some converted) rest"
| "encodeFrames includeColors (Some prev) (converted # rest) =
     computeDelta prev converted includeColors # encodeFrames includeColors (Some converted) rest"

section \<open>The player's decoder: \<^verbatim>\<open>player.ts\<close>, \<^verbatim>\<open>preDecodeFrames\<close>\<close>

text \<open>Writing \<^verbatim>\<open>chars[i] = c\<close> into a JavaScript array: inside the array it
  replaces the element, past the end it extends the array with holes, and a key that
  is no array index (negative, or above \<open>2^32 - 2\<close>) leaves the elements alone.
  \<open>None\<close> is a hole. \<^verbatim>\<open>join('')\<close> skips holes.\<close>

definition array_set :: "'a option list \<Rightarrow> int \<Rightarrow> 'a \<Rightarrow> 'a option list" where
  "array_set xs i v =
     (if 0 \<le> i \<and> i < 2 ^ 32 - 1
      then (if nat i < length xs then xs[nat i := Some v]
            else xs @ replicate (nat i - length xs) None @ [Some v])
      else xs)"

definition array_join :: "codeunit option list \<Rightarrow> jsstring" where
  "array_join xs = concat (map (\<lambda>x. case x of None \<Rightarrow> [] | Some c \<Rightarrow> [c]) xs)"

text \<open>Writing \<^verbatim>\<open>a[i] = v\<close> into a \<^verbatim>\<open>Uint8Array\<close>: the value is stored
  modulo 256, and a write outside the array is ignored.\<close>

definition typed_set :: "byte list \<Rightarrow> int \<Rightarrow> nat \<Rightarrow> byte list" where
  "typed_set xs i v =
     (if 0 \<le> i \<and> i < int (length xs) then xs[nat i := of_nat v] else xs)"

text \<open>\<^verbatim>\<open>x ?? 0\<close>.\<close>

definition orZero :: "nat option \<Rightarrow> nat" where
  "orZero x = (case x of None \<Rightarrow> 0 | Some v \<Rightarrow> v)"

text \<open>The running buffers \<^verbatim>\<open>currentChars\<close> and \<^verbatim>\<open>currentColors\<close>
  (\<open>None\<close> is \<^verbatim>\<open>undefined\<close>).\<close>

type_synonym buffers = "jsstring \<times> byte list option"

definition applyChange ::
  "bool \<Rightarrow> codeunit option list \<times> byte list option \<Rightarrow> DeltaChange
     \<Rightarrow> codeunit option list \<times> byte list option" where
  "applyChange includeColors st change =
     (let chars = array_set (fst st) (dc_index change) (dc_char change)
      in (chars,
          (case snd st of
             None \<Rightarrow> None
           | Some currentColors \<Rightarrow>
               if includeColors
               then Some (typed_set
                           (typed_set
                             (typed_set currentColors (dc_index change * 3)
                                (orZero (dc_colorR change)))
                             (dc_index change * 3 + 1) (orZero (dc_colorG change)))
                           (dc_index change * 3 + 2) (orZero (dc_colorB change)))
               else Some currentColors)))"

text \<open>One pass of the loop over the frames, up to the formatting of the text.
  \<^verbatim>\<open>currentChars.split('')\<close> gives the code units as an array (of at most
  \<open>2^32 - 1\<close> elements, the default limit of \<^verbatim>\<open>split\<close>).\<close>

fun applyFrame :: "bool \<Rightarrow> buffers \<Rightarrow> ASCIIFrame \<Rightarrow> buffers" where
  "applyFrame includeColors (currentChars, currentColors) (Full chars colors) =
     (chars,
      (case colors of
         Some cs \<Rightarrow> if includeColors then Some cs else currentColors
       | None \<Rightarrow> currentColors))"
| "applyFrame includeColors (currentChars, currentColors) (Delta changes) =
     (let chars = map Some (take (2 ^ 32 - 1) currentChars);
          st = foldl (applyChange includeColors) (chars, currentColors) changes
      in (array_join (fst st), snd st))"

text \<open>The buffers after each frame.\<close>

fun runFrames :: "bool \<Rightarrow> buffers \<Rightarrow> ASCIIFrame list \<Rightarrow> buffers list" where
  "runFrames includeColors st [] = []"
| "runFrames includeColors st (frame # rest) =
     (let st' = applyFrame includeColors st frame
      in st' # runFrames includeColors st' rest)"

text \<open>The line loop \<^verbatim>\<open>for (let i = 0; i < currentChars.length; i += meta.cols)\<close>.
  With \<open>meta.cols = 0\<close> and a non-empty string it does not end: the result is
  \<open>None\<close>.\<close>

partial_function (option) splitLines ::
  "nat \<Rightarrow> jsstring \<Rightarrow> nat \<Rightarrow> jsstring list \<Rightarrow> jsstring list option" where
  "splitLines cols currentChars i lines =
     (if i < length currentChars
      then splitLines cols currentChars (i + cols) (lines @ [take cols (drop i currentChars)])
      else Some lines)"

declare splitLines.simps [code]

text \<open>\<^verbatim>\<open>lines.join('\n')\<close>.\<close>

fun joinLines :: "jsstring list \<Rightarrow> jsstring" where
  "joinLines [] = []"
| "joinLines [l] = l"
| "joinLines (l # ls) = l @ 10 # joinLines ls"

record DecodedFrame =
  df_text :: jsstring
  df_colors :: "byte list option"

text \<open>The frame pushed at the end of a pass: the text and a copy of the colours.\<close>

definition snapshot :: "nat \<Rightarrow> buffers \<Rightarrow> DecodedFrame option" where
  "snapshot cols st =
     (case splitLines cols (fst st) 0 [] of
        None \<Rightarrow> None
      | Some lines \<Rightarrow> Some \<lparr>df_text = joinLines lines, df_colors = snd st\<rparr>)"

text \<open>Sequencing: \<open>None\<close> as soon as one pass does not end.\<close>

fun allSome :: "'a option list \<Rightarrow> 'a list option" where
  "allSome [] = Some []"
| "allSome (x # xs) =
     (case x of
        None \<Rightarrow> None
      | Some v \<Rightarrow> (case allSome xs of None \<Rightarrow> None | Some vs \<Rightarrow> Some (v # vs)))"

definition initialBuffers :: "ASCIIAnimationMeta \<Rightarrow> buffers" where
  "initialBuffers meta =
     ([], if m_colorMode meta \<noteq> Mono
          then Some (replicate (m_rows meta * m_cols meta * 3) 0) else None)"

definition preDecodeFrames :: "ASCIIAnimation \<Rightarrow> DecodedFrame list option" where
  "preDecodeFrames animation =
     (let meta = a_meta animation;
          includeColors = (m_colorMode meta \<noteq> Mono)
      in allSome (map (snapshot (m_cols meta))
                    (runFrames includeColors (initialBuffers meta) (a_frames animation))))"


section \<open>The binary format: \<^verbatim>\<open>encodeVarInt\<close>, \<^verbatim>\<open>writeBinary\<close>, \<^verbatim>\<open>decodeBinary\<close>\<close>

text \<open>The bitwise operators \<^verbatim>\<open>a & b\<close> and \<^verbatim>\<open>a | b\<close> on integral numbers.\<close>

definition js_and :: "int \<Rightarrow> int \<Rightarrow> int" where
  "js_and a b = ToInt32 a AND ToInt32 b"

definition js_or :: "int \<Rightarrow> int \<Rightarrow> int" where
  "js_or a b = ToInt32 a OR ToInt32 b"

text \<open>\<^verbatim>\<open>encodeVarInt\<close>: \<^verbatim>\<open>while (n > 127) { bytes.push((n & 0x7f) | 0x80); n >>>= 7; }
  bytes.push(n)\<close>. The result is a \<^verbatim>\<open>number[]\<close>.\<close>

function encodeVarInt :: "int \<Rightarrow> int list" where
  "encodeVarInt n =
     (if n > 127 then js_or (js_and n 0x7f) 0x80 # encodeVarInt (ToUint32 n div 2 ^ 7)
      else [n])"
  by pat_completeness auto
termination
proof (relation "measure nat")
  show "wf (measure nat)" by simp
next
  fix n :: int
  assume "127 < n"
  then have "n mod 2 ^ 32 \<le> n"
    by (intro zmod_le_nonneg_dividend) simp
  then have "n mod 2 ^ 32 div 2 ^ 7 \<le> n div 2 ^ 7"
    by (intro zdiv_mono1) simp_all
  also have "n div 2 ^ 7 < n"
    using \<open>127 < n\<close> by (intro int_div_less_self) simp_all
  finally have "n mod 2 ^ 32 div 2 ^ 7 < n" .
  with \<open>127 < n\<close> show "(ToUint32 n div 2 ^ 7, n) \<in> measure nat"
    by (simp add: ToUint32_def)
qed

declare encodeVarInt.simps [simp del]


text \<open>\<^verbatim>\<open>decodeVarInt(bytes, offset)\<close>. The loop reads \<^verbatim>\<open>bytes[offset + bytesRead]\<close>;
  past the end the read is \<^verbatim>\<open>undefined\<close>, both masks of it are 0, and the loop
  ends. The result is \<open>(value, bytesRead)\<close>.\<close>

function decodeVarIntLoop :: "byte list \<Rightarrow> nat \<Rightarrow> int \<Rightarrow> nat \<Rightarrow> nat \<Rightarrow> int \<times> nat" where
  "decodeVarIntLoop bytes offset val shift bytesRead =
     (case js_get bytes (int (offset + bytesRead)) of
        None \<Rightarrow> (js_or val (js_shl 0 shift), bytesRead + 1)
      | Some byte \<Rightarrow>
          (let val' = js_or val (js_shl (js_and (uint byte) 0x7f) shift)
           in if js_and (uint byte) 0x80 = 0 then (val', bytesRead + 1)
              else decodeVarIntLoop bytes offset val' (shift + 7) (bytesRead + 1)))"
  by pat_completeness auto
termination
  by (relation "measure (\<lambda>(bytes, offset, val, shift, bytesRead). length bytes - (offset + bytesRead))")
     (auto simp: js_get_def split: if_splits)

declare decodeVarIntLoop.simps [simp del]

definition decodeVarInt :: "byte list \<Rightarrow> nat \<Rightarrow> int \<times> nat" where
  "decodeVarInt bytes offset = decodeVarIntLoop bytes offset 0 0 0"







text \<open>\<^verbatim>\<open>bytes.slice(start, end)\<close> for \<open>start \<le> end\<close>: clipped to the array.\<close>

definition js_slice :: "'a list \<Rightarrow> nat \<Rightarrow> nat \<Rightarrow> 'a list" where
  "js_slice xs start end = take (end - start) (drop start xs)"

text \<open>The loop over the changes of a delta frame: \<open>n\<close> changes are still to be
  read at \<open>offset\<close>. The result is the changes and the offset after them.
  \<^verbatim>\<open>String.fromCharCode(undefined)\<close> is the code unit 0.\<close>

fun decodeChanges :: "byte list \<Rightarrow> bool \<Rightarrow> nat \<Rightarrow> nat \<Rightarrow> DeltaChange list \<times> nat" where
  "decodeChanges bytes includeColors 0 offset = ([], offset)"
| "decodeChanges bytes includeColors (Suc n) offset =
     (let (index, indexBytes) = decodeVarInt bytes offset;
          offset1 = offset + indexBytes;
          char = (case js_get bytes (int offset1) of None \<Rightarrow> 0 | Some b \<Rightarrow> unat b);
          offset2 = offset1 + 1;
          change = \<lparr>dc_index = index, dc_char = char,
                    dc_colorR = (if includeColors
                                 then map_option unat (js_get bytes (int offset2)) else None),
                    dc_colorG = (if includeColors
                                 then map_option unat (js_get bytes (int (offset2 + 1))) else None),
                    dc_colorB = (if includeColors
                                 then map_option unat (js_get bytes (int (offset2 + 2))) else None)\<rparr>;
          offset3 = (if includeColors then offset2 + 3 else offset2);
          (changes, offset4) = decodeChanges bytes includeColors n offset3
      in (change # changes, offset4))"

text \<open>The loop over the frames: \<open>n\<close> frames are still to be read at \<open>offset\<close>.
  A type byte other than 0, also a missing one, starts a delta frame. A negative
  change count runs the inner loop zero times.\<close>

fun decodeFrames :: "byte list \<Rightarrow> bool \<Rightarrow> nat \<Rightarrow> nat \<Rightarrow> nat \<Rightarrow> ASCIIFrame list" where
  "decodeFrames bytes includeColors totalChars 0 offset = []"
| "decodeFrames bytes includeColors totalChars (Suc n) offset =
     (let frameType = js_get bytes (int offset);
          offset1 = offset + 1
      in if frameType = Some 0
         then (let chars = map unat (js_slice bytes offset1 (offset1 + totalChars));
                   offset2 = offset1 + totalChars
               in if includeColors
                  then Full chars (Some (js_slice bytes offset2 (offset2 + totalChars * 3)))
                       # decodeFrames bytes includeColors totalChars n (offset2 + totalChars * 3)
                  else Full chars None
                       # decodeFrames bytes includeColors totalChars n offset2)
         else (let (changeCount, countBytes) = decodeVarInt bytes offset1;
                   (changes, offset2) =
                      decodeChanges bytes includeColors (nat changeCount) (offset1 + countBytes)
               in Delta changes # decodeFrames bytes includeColors totalChars n offset2))"

definition getUint16le :: "byte list \<Rightarrow> nat \<Rightarrow> nat" where
  "getUint16le bytes i = unat (bytes ! i) + 256 * unat (bytes ! (i + 1))"

text \<open>\<^verbatim>\<open>decodeBinary\<close>. The magic is compared first (a missing byte makes it differ).
  \<^verbatim>\<open>view.getUint16(i, true)\<close> throws a \<open>RangeError\<close> when bytes \<open>i\<close> and
  \<open>i + 1\<close> are not both inside the buffer; the last such read is at 11, so a buffer
  shorter than 13 bytes ends there. With exactly 13 bytes \<^verbatim>\<open>bytes[13]\<close> is
  \<^verbatim>\<open>undefined\<close>: the ramp is empty and the offset becomes NaN, so that every later
  read is \<^verbatim>\<open>undefined\<close>, as it is here at the offset 32 past the end.\<close>

definition decodeBinary :: "byte list \<Rightarrow> error + ASCIIAnimation" where
  "decodeBinary bytes =
     (if take 4 bytes \<noteq> [0x41, 0x53, 0x43, 0x49] then Inl BadMagic
      else if length bytes < 13 then Inl RangeError
      else
        (let version = unat (bytes ! 4);
             colorModeNum = unat (bytes ! 5);
             colorMode = (if colorModeNum = 0 then Mono
                          else if colorModeNum = 1 then Rgb else Palette);
             cols = getUint16le bytes 6;
             rows = getUint16le bytes 8;
             fps = unat (bytes ! 10);
             frameCount = getUint16le bytes 11;
             rampLen = (case js_get bytes 13 of None \<Rightarrow> 0 | Some b \<Rightarrow> unat b);
             offset = 32;
             ramp = map unat (js_slice bytes offset (offset + rampLen));
             totalChars = rows * cols;
             includeColors = (colorMode \<noteq> Mono);
             frames = decodeFrames bytes includeColors totalChars frameCount (offset + rampLen)
         in Inr \<lparr>a_meta = \<lparr>m_version = version, m_cols = cols, m_rows = rows, m_fps = fps,
                           m_frameCount = frameCount, m_duration = js_div frameCount fps,
                           m_colorMode = colorMode, m_palette = None, m_ramp = ramp\<rparr>,
                 a_frames = frames\<rparr>))"


section \<open>The converter: \<^verbatim>\<open>asciiConverter.ts\<close>, \<^verbatim>\<open>convertToASCII\<close>\<close>

text \<open>
  The grid geometry is computed in doubles (\<^verbatim>\<open>width / cols\<close>,
  \<^verbatim>\<open>cellW / charAspect\<close>, \<^verbatim>\<open>Math.floor(height / cellH)\<close>). Here the quotients
  are exact rationals; the two agree wherever the doubles are exact, in particular
  on the concrete inputs evaluated below. A zero divisor, which gives an infinity or
  NaN in doubles, is a case of its own in \<open>convertToASCII\<close>.
\<close>

record ImageData =
  i_data :: "byte list"
  i_width :: int
  i_height :: int

record ConvertOptions =
  c_cols :: int
  c_ramp :: jsstring
  c_colorMode :: ColorMode

definition charAspect :: rat where "charAspect = 1 / 2"

text \<open>The table \<^verbatim>\<open>lumToChar\<close>, a \<^verbatim>\<open>Uint8Array(256)\<close>:
  \<^verbatim>\<open>Math.min(Math.floor((lum * rampLen) / 256), rampLen - 1)\<close>.\<close>

definition lumToChar :: "jsstring \<Rightarrow> byte list" where
  "lumToChar ramp =
     (let rampLen = int (length ramp)
      in map (\<lambda>lum. of_int (min ((int lum * rampLen) div 256) (rampLen - 1))) [0..<256])"

text \<open>\<^verbatim>\<open>Math.floor(Math.sqrt(x))\<close> for a natural number \<open>x\<close>: the number of
  \<open>m \<ge> 1\<close> with \<open>m * m \<le> x\<close>.\<close>

definition floor_sqrt :: "nat \<Rightarrow> nat" where
  "floor_sqrt x = length (filter (\<lambda>m. m * m \<le> x) [1..<Suc x])"

text \<open>\<^verbatim>\<open>Math.max(1, Math.floor(Math.sqrt((endX - baseX) * (endY - baseY) / 16)))\<close>.
  When the product is negative the step is NaN; one of the two ranges is then empty
  and the step is never used, so any value serves.\<close>

definition sampleStep :: "int \<Rightarrow> int \<Rightarrow> int \<Rightarrow> int \<Rightarrow> int" where
  "sampleStep baseX endX baseY endY =
     (let area = (endX - baseX) * (endY - baseY)
      in if area < 0 then 1 else max 1 (int (floor_sqrt (nat (area div 16)))))"

text \<open>The values of \<open>v\<close> in \<^verbatim>\<open>for (let v = base; v < end; v += step)\<close>, \<open>step \<ge> 1\<close>.\<close>

definition strided :: "int \<Rightarrow> int \<Rightarrow> int \<Rightarrow> int list" where
  "strided base end step = filter (\<lambda>v. (v - base) mod step = 0) [base..end - 1]"

text \<open>\<^verbatim>\<open>total += data[i]\<close>: a read outside the data is \<^verbatim>\<open>undefined\<close> and
  turns the total into NaN (\<open>None\<close>) for good.\<close>

definition addSample :: "int option \<Rightarrow> byte option \<Rightarrow> int option" where
  "addSample tot v =
     (case tot of
        None \<Rightarrow> None
      | Some t \<Rightarrow> (case v of None \<Rightarrow> None | Some b \<Rightarrow> Some (t + uint b)))"

text \<open>Storing a number into a \<^verbatim>\<open>Uint8Array\<close>: NaN is stored as 0.\<close>

definition storeByte :: "int option \<Rightarrow> byte" where
  "storeByte v = (case v of None \<Rightarrow> 0 | Some x \<Rightarrow> of_int x)"

text \<open>One cell, given its pixel rectangle: the sampled pixels, the averages, the
  luminance, the symbol \<^verbatim>\<open>ramp[charIndex]\<close> (\<open>None\<close> is \<^verbatim>\<open>undefined\<close>) and the
  three colour bytes. \<^verbatim>\<open>NaN >> 8\<close> is 0. The quotient
  \<^verbatim>\<open>Math.floor(total / sampleCount)\<close> of two integers is integer division.\<close>

definition sampleCell ::
  "byte list \<Rightarrow> int \<Rightarrow> jsstring \<Rightarrow> byte list \<Rightarrow> int \<Rightarrow> int \<Rightarrow> int \<Rightarrow> int
     \<Rightarrow> codeunit option \<times> byte list" where
  "sampleCell data width ramp lut baseX endX baseY endY =
     (let step = sampleStep baseX endX baseY endY;
          samples = concat (map (\<lambda>y. map (\<lambda>x. (y * width + x) * 4)
                                          (strided baseX endX step))
                                (strided baseY endY step));
          totalR = foldl (\<lambda>t i. addSample t (js_get data i)) (Some 0) samples;
          totalG = foldl (\<lambda>t i. addSample t (js_get data (i + 1))) (Some 0) samples;
          totalB = foldl (\<lambda>t i. addSample t (js_get data (i + 2))) (Some 0) samples;
          sampleCount = (if samples = [] then 1 else int (length samples));
          avgR = map_option (\<lambda>t. t div sampleCount) totalR;
          avgG = map_option (\<lambda>t. t div sampleCount) totalG;
          avgB = map_option (\<lambda>t. t div sampleCount) totalB;
          lum = (case (avgR, avgG, avgB) of
                   (Some r, Some g, Some b) \<Rightarrow> fastLuminance r g b
                 | _ \<Rightarrow> 0);
          symbol = (case js_get lut lum of
                      None \<Rightarrow> None
                    | Some charIndex \<Rightarrow> js_get ramp (uint charIndex))
      in (symbol, [storeByte avgR, storeByte avgG, storeByte avgB]))"

text \<open>The rectangle of the cell at \<open>(row, col)\<close>.\<close>

definition cellBaseY :: "rat \<Rightarrow> int \<Rightarrow> int" where
  "cellBaseY cellH row = \<lfloor>of_int row * cellH\<rfloor>"

definition cellEndY :: "rat \<Rightarrow> int \<Rightarrow> int \<Rightarrow> int" where
  "cellEndY cellH height row = min \<lfloor>of_int (cellBaseY cellH row) + cellH\<rfloor> height"

definition cellBaseX :: "rat \<Rightarrow> int \<Rightarrow> int" where
  "cellBaseX cellW col = \<lfloor>of_int col * cellW\<rfloor>"

definition cellEndX :: "rat \<Rightarrow> int \<Rightarrow> int \<Rightarrow> int" where
  "cellEndX cellW width col = min \<lfloor>of_int (cellBaseX cellW col) + cellW\<rfloor> width"

definition convertCell ::
  "ImageData \<Rightarrow> jsstring \<Rightarrow> byte list \<Rightarrow> rat \<Rightarrow> rat \<Rightarrow> int \<Rightarrow> int
     \<Rightarrow> codeunit option \<times> byte list" where
  "convertCell imageData ramp lut cellW cellH row col =
     sampleCell (i_data imageData) (i_width imageData) ramp lut
       (cellBaseX cellW col) (cellEndX cellW (i_width imageData) col)
       (cellBaseY cellH row) (cellEndY cellH (i_height imageData) row)"

text \<open>
  \<^verbatim>\<open>convertToASCII\<close>. With \<open>cols = 0\<close> the cell width is infinite (NaN when the
  width is 0 too); with \<open>width = 0\<close> and \<open>cols \<noteq> 0\<close> the cell height is zero and
  \<open>rows\<close> is infinite or NaN. An infinite cell size gives \<open>rows = 0\<close> and an empty
  grid; a NaN or infinite \<open>totalChars\<close>, like a negative one or one above
  \<open>2^32 - 1\<close>, makes \<^verbatim>\<open>new Array(totalChars)\<close> throw a \<open>RangeError\<close>.
  Otherwise the cells are visited row by row; \<^verbatim>\<open>chars\<close> starts as
  \<open>totalChars\<close> holes and \<^verbatim>\<open>colors\<close> as \<open>totalChars * 3\<close> zero bytes, filled from
  the front, and \<^verbatim>\<open>chars.join('')\<close> skips holes and \<^verbatim>\<open>undefined\<close> entries.
\<close>

definition convertToASCII :: "ImageData \<Rightarrow> ConvertOptions \<Rightarrow> error + ConvertedFrame" where
  "convertToASCII imageData options =
     (let cols = c_cols options;
          ramp = c_ramp options;
          width = i_width imageData;
          height = i_height imageData
      in if cols = 0
         then (if width = 0 then Inl RangeError
               else Inr \<lparr>cf_chars = [], cf_colors = [], cf_rows = 0, cf_cols = 0\<rparr>)
         else if width = 0 then Inl RangeError
         else
           (let cellW = of_int width / of_int cols;
                cellH = cellW / charAspect;
                rows = \<lfloor>of_int height / cellH\<rfloor>;
                totalChars = rows * cols
            in if totalChars < 0 \<or> 2 ^ 32 - 1 < totalChars then Inl RangeError
               else
                 (let lut = lumToChar ramp;
                      cells = concat (map (\<lambda>row. map (convertCell imageData ramp lut cellW cellH row)
                                                     [0..cols - 1])
                                          [0..rows - 1]);
                      chars = map fst cells @ replicate (nat totalChars - length cells) None;
                      colors = concat (map snd cells)
                               @ replicate (nat totalChars * 3 - length cells * 3) 0
                  in Inr \<lparr>cf_chars = array_join chars, cf_colors = colors,
                          cf_rows = rows, cf_cols = cols\<rparr>)))"



section \<open>Predicates used in the statements\<close>




text \<open>The resolved grid that a converted frame stands for: its symbols, and its
  colours when colours are included.\<close>

definition gridOf :: "bool \<Rightarrow> ConvertedFrame \<Rightarrow> buffers" where
  "gridOf includeColors g =
     (cf_chars g, if includeColors then Some (cf_colors g) else None)"

text \<open>Cell \<open>i\<close> differs between two grids: the symbol differs, or colours are
  included and one of the three channels differs.\<close>

definition cellDiffers :: "bool \<Rightarrow> ConvertedFrame \<Rightarrow> ConvertedFrame \<Rightarrow> nat \<Rightarrow> bool" where
  "cellDiffers includeColors prev cur i \<longleftrightarrow>
     cf_chars cur ! i \<noteq> cf_chars prev ! i \<or>
     (includeColors \<and>
       (cf_colors cur ! (3 * i) \<noteq> cf_colors prev ! (3 * i) \<or>
        cf_colors cur ! (3 * i + 1) \<noteq> cf_colors prev ! (3 * i + 1) \<or>
        cf_colors cur ! (3 * i + 2) \<noteq> cf_colors prev ! (3 * i + 2)))"

text \<open>The lines of a text of width \<open>cols > 0\<close>.\<close>

function chopLines :: "nat \<Rightarrow> jsstring \<Rightarrow> jsstring list" where
  "chopLines cols s =
     (if cols = 0 \<or> s = [] then [] else take cols s # chopLines cols (drop cols s))"
  by pat_completeness auto
termination
  by (relation "measure (\<lambda>(cols, s). length s)") auto

declare chopLines.simps [simp del]

text \<open>The buffers while a delta is applied, once the cells below \<open>k\<close> have been
  visited: the current grid below \<open>k\<close>, the previous grid from \<open>k\<close> on.\<close>

definition spliced :: "bool \<Rightarrow> ConvertedFrame \<Rightarrow> ConvertedFrame \<Rightarrow> nat
    \<Rightarrow> codeunit option list \<times> byte list option" where
  "spliced includeColors prev cur k =
     (map Some (take k (cf_chars cur) @ drop k (cf_chars prev)),
      if includeColors
      then Some (take (3 * k) (cf_colors cur) @ drop (3 * k) (cf_colors prev)) else None)"








text \<open>Concrete frames and a concrete header for the evaluations below.\<close>

definition exPrev :: ConvertedFrame where
  "exPrev = \<lparr>cf_chars = [32, 32, 32, 32, 32], cf_colors = replicate 15 0, cf_rows = 1, cf_cols = 5\<rparr>"

definition exCur :: ConvertedFrame where
  "exCur = \<lparr>cf_chars = [35, 35, 35, 32, 32], cf_colors = replicate 15 0, cf_rows = 1, cf_cols = 5\<rparr>"

definition exGrid1 :: ConvertedFrame where
  "exGrid1 = \<lparr>cf_chars = [32, 32, 43, 43], cf_colors = map of_nat [0..<12], cf_rows = 2, cf_cols = 2\<rparr>"

definition exGrid2 :: ConvertedFrame where
  "exGrid2 = \<lparr>cf_chars = [32, 35, 43, 43], cf_colors = map of_nat [0..<12], cf_rows = 2, cf_cols = 2\<rparr>"

definition exMeta :: ASCIIAnimationMeta where
  "exMeta = \<lparr>m_version = 1, m_cols = 2, m_rows = 2, m_fps = 24, m_frameCount = 2,
             m_duration = js_div 2 24, m_colorMode = Rgb, m_palette = None,
             m_ramp = minimal_ramp\<rparr>"





definition exGray :: "nat \<Rightarrow> byte list" where
  "exGray pixels = concat (replicate pixels [128, 128, 128, 255])"


section \<open>Luminance and the lookup table\<close>




lemma lutValue_range:
  assumes "1 \<le> L" "0 \<le> lum" "lum \<le> 255"
  shows "0 \<le> lutValue i L lum \<and> lutValue i L lum \<le> L - 1"
proof -
  have "0 \<le> (if i then 255 - lum else lum) * L" using assms by auto
  then have "0 \<le> ((if i then 255 - lum else lum) * L) div 256"
    by (simp add: pos_imp_zdiv_nonneg_iff)
  with assms show ?thesis unfolding lutValue_def Let_def by auto
qed

lemma lutEntry_uint:
  assumes "1 \<le> L" "L \<le> 256" "0 \<le> lum" "lum \<le> 255"
  shows "uint (lutEntry i L lum) = lutValue i L lum"
proof -
  have "0 \<le> lutValue i L lum \<and> lutValue i L lum \<le> L - 1"
    using assms by (intro lutValue_range) auto
  then have "lutValue i L lum mod 256 = lutValue i L lum" using assms by auto
  then show ?thesis
    by (simp add: lutEntry_def uint_word_of_int)
qed


lemma lutValue_mono:
  assumes "0 \<le> L" "a \<le> b"
  shows "lutValue False L a \<le> lutValue False L b"
proof -
  have "a * L \<le> b * L" using assms by (simp add: mult_right_mono)
  then have "(a * L) div 256 \<le> (b * L) div 256" by (intro zdiv_mono1) simp_all
  then show ?thesis unfolding lutValue_def Let_def by auto
qed

lemma lutValue_antimono:
  assumes "0 \<le> L" "a \<le> b"
  shows "lutValue True L b \<le> lutValue True L a"
proof -
  have "(255 - b) * L \<le> (255 - a) * L" using assms by (simp add: mult_right_mono)
  then have "((255 - b) * L) div 256 \<le> ((255 - a) * L) div 256" by (intro zdiv_mono1) simp_all
  then show ?thesis unfolding lutValue_def Let_def by auto
qed

lemma lut_nth:
  "lum < 256 \<Longrightarrow> r_lumToCharLUT (buildLumLUT st) ! lum
     = lutEntry (r_invert st) (int (length (r_ramp st))) (int lum)"
  by (simp add: buildLumLUT_def del: upt_Suc)

text \<open>
  Claim C7. For a ramp of length \<open>L\<close> with \<open>1 \<le> L \<le> 255\<close>, the table built by
  \<^verbatim>\<open>buildLumLUT\<close> has 256 entries, the entry at \<open>lum\<close> is
  \<open>min (floor ((invert ? 255 - lum : lum) * L / 256)) (L - 1)\<close> (the byte store does
  not wrap), and the table is non-decreasing in \<open>lum\<close> when \<open>invert\<close> is false and
  non-increasing when it is true.
\<close>

theorem buildLumLUT_table:
  assumes "1 \<le> length (r_ramp st)" and "length (r_ramp st) \<le> 255"
  shows "length (r_lumToCharLUT (buildLumLUT st)) = 256
       \<and> (\<forall>lum < 256.
            uint (r_lumToCharLUT (buildLumLUT st) ! lum)
              = min (((if r_invert st then 255 - int lum else int lum)
                        * int (length (r_ramp st))) div 256)
                    (int (length (r_ramp st)) - 1))
       \<and> (\<not> r_invert st \<longrightarrow>
            (\<forall>a b. a \<le> b \<and> b < 256 \<longrightarrow>
               r_lumToCharLUT (buildLumLUT st) ! a \<le> r_lumToCharLUT (buildLumLUT st) ! b))
       \<and> (r_invert st \<longrightarrow>
            (\<forall>a b. a \<le> b \<and> b < 256 \<longrightarrow>
               r_lumToCharLUT (buildLumLUT st) ! b \<le> r_lumToCharLUT (buildLumLUT st) ! a))"
proof -
  let ?L = "int (length (r_ramp st))"
  let ?T = "r_lumToCharLUT (buildLumLUT st)"
  have L: "1 \<le> ?L" "?L \<le> 256" using assms by auto
  have len: "length ?T = 256" by (simp add: buildLumLUT_def del: upt_Suc)
  have val: "uint (?T ! lum) = lutValue (r_invert st) ?L (int lum)" if "lum < 256" for lum
    using that L by (simp add: lut_nth lutEntry_uint)
  have mono: "?T ! a \<le> ?T ! b" if "\<not> r_invert st" "a \<le> b" "b < 256" for a b
  proof -
    have "lutValue False ?L (int a) \<le> lutValue False ?L (int b)"
      using that by (intro lutValue_mono) auto
    then show ?thesis using that val[of a] val[of b] by (simp add: word_le_def)
  qed
  have anti: "?T ! b \<le> ?T ! a" if "r_invert st" "a \<le> b" "b < 256" for a b
  proof -
    have "lutValue True ?L (int b) \<le> lutValue True ?L (int a)"
      using that by (intro lutValue_antimono) auto
    then show ?thesis using that val[of a] val[of b] by (simp add: word_le_def)
  qed
  show ?thesis
    using len val mono anti by (simp add: lutValue_def Let_def)
qed

theorem buildLumLUT_table_witness:
  "1 \<le> length (r_ramp newRenderer) \<and> length (r_ramp newRenderer) \<le> 255
   \<and> \<not> r_invert newRenderer
   \<and> uint (r_lumToCharLUT (buildLumLUT newRenderer) ! 128) = 3
   \<and> r_lumToCharLUT (buildLumLUT newRenderer) ! 100 \<le> r_lumToCharLUT (buildLumLUT newRenderer) ! 200"
proof -
  have r: "r_ramp newRenderer = minimal_ramp" "\<not> r_invert newRenderer"
    by (simp_all add: newRenderer_def updateRampCodes_def buildLumLUT_def)
  then have h: "1 \<le> length (r_ramp newRenderer)" "length (r_ramp newRenderer) \<le> 255"
    by (simp_all add: minimal_ramp_def)
  from buildLumLUT_table[OF h] r h show ?thesis
    by (simp add: minimal_ramp_def)
qed



section \<open>The renderer's table stays consistent\<close>

lemma buildLumLUT_fields [simp]:
  "r_ramp (buildLumLUT st) = r_ramp st"
  "r_rampCodes (buildLumLUT st) = r_rampCodes st"
  "r_colorMode (buildLumLUT st) = r_colorMode st"
  "r_invert (buildLumLUT st) = r_invert st"
  "r_cols (buildLumLUT st) = r_cols st"
  by (simp_all add: buildLumLUT_def)

lemma updateRampCodes_fields [simp]:
  "r_ramp (updateRampCodes st) = r_ramp st"
  "r_rampCodes (updateRampCodes st) = map (\<lambda>c. of_nat c) (r_ramp st)"
  "r_colorMode (updateRampCodes st) = r_colorMode st"
  "r_invert (updateRampCodes st) = r_invert st"
  "r_cols (updateRampCodes st) = r_cols st"
  by (simp_all add: updateRampCodes_def)
















section \<open>Setting the column count\<close>




section \<open>The threshold of the delta compression\<close>

lemma changed_iff_cellDiffers:
  assumes "length (cf_chars prev) = length (cf_chars cur)"
    and "includeColors \<longrightarrow> length (cf_colors prev) = 3 * length (cf_chars cur)
                           \<and> length (cf_colors cur) = 3 * length (cf_chars cur)"
    and "i < length (cf_chars cur)"
  shows "(charChanged prev cur i \<or> colorChanged prev cur includeColors i)
           \<longleftrightarrow> cellDiffers includeColors prev cur i"
proof -
  have c: "charChanged prev cur i \<longleftrightarrow> cf_chars cur ! i \<noteq> cf_chars prev ! i"
    using assms by (simp add: charChanged_def js_get_def)
  have k: "nat (int i * 3) = 3 * i" "nat (int i * 3 + 1) = 3 * i + 1"
    "nat (int i * 3 + 2) = 3 * i + 2"
    by (simp_all add: nat_add_distrib nat_mult_distrib)
  have "colorChanged prev cur includeColors i \<longleftrightarrow>
          (includeColors \<and>
            (cf_colors cur ! (3 * i) \<noteq> cf_colors prev ! (3 * i) \<or>
             cf_colors cur ! (3 * i + 1) \<noteq> cf_colors prev ! (3 * i + 1) \<or>
             cf_colors cur ! (3 * i + 2) \<noteq> cf_colors prev ! (3 * i + 2)))"
  proof (cases includeColors)
    case False
    then show ?thesis by (simp add: colorChanged_def)
  next
    case True
    with assms have "int i * 3 + 2 < int (length (cf_colors prev))"
      "int i * 3 + 2 < int (length (cf_colors cur))" by auto
    with True show ?thesis by (simp add: colorChanged_def js_get_def k)
  qed
  with c show ?thesis by (simp add: cellDiffers_def)
qed

lemma length_deltaChanges_code:
  "length (deltaChanges prev cur includeColors)
     = card {i. i < length (cf_chars cur)
                \<and> (charChanged prev cur i \<or> colorChanged prev cur includeColors i)}"
proof -
  let ?n = "length (cf_chars cur)"
  let ?P = "\<lambda>i. charChanged prev cur i \<or> colorChanged prev cur includeColors i"
  have "length (deltaChanges prev cur includeColors) = length (filter ?P [0..<?n])"
    by (simp add: deltaChanges_def)
  also have "\<dots> = card {i. i < length [0..<?n] \<and> ?P ([0..<?n] ! i)}"
    by (rule length_filter_conv_card)
  also have "{i. i < length [0..<?n] \<and> ?P ([0..<?n] ! i)} = {i. i < ?n \<and> ?P i}"
    by auto
  finally show ?thesis .
qed

lemma length_deltaChanges:
  assumes "length (cf_chars prev) = length (cf_chars cur)"
    and "includeColors \<longrightarrow> length (cf_colors prev) = 3 * length (cf_chars cur)
                           \<and> length (cf_colors cur) = 3 * length (cf_chars cur)"
  shows "length (deltaChanges prev cur includeColors)
           = card {i. i < length (cf_chars cur) \<and> cellDiffers includeColors prev cur i}"
proof -
  have "{i. i < length (cf_chars cur)
            \<and> (charChanged prev cur i \<or> colorChanged prev cur includeColors i)}
          = {i. i < length (cf_chars cur) \<and> cellDiffers includeColors prev cur i}"
    using changed_iff_cellDiffers[OF assms] by blast
  then show ?thesis by (simp add: length_deltaChanges_code)
qed

lemma computeDelta_many_changes:
  assumes "of_nat (length (deltaChanges prev cur includeColors))
             > (4 / 10 :: rat) * of_nat (length (cf_chars cur))"
  shows "computeDelta prev cur includeColors
           = Full (cf_chars cur) (if includeColors then Some (cf_colors cur) else None)"
  using assms by (simp add: computeDelta_def Let_def DELTA_THRESHOLD_def mult.commute)

text \<open>
  Claim C3. Whenever the number of changed cells exceeds 0.4 times the number of cells,
  \<^verbatim>\<open>computeDelta\<close> returns a full frame holding the current grid, and no delta
  frame. The changed cells are counted first with the tests of the code itself, for
  any two frames, and then, for two grids of the same size, as the cells whose symbol
  differs or (with colours) one of whose channels differs.
\<close>

theorem computeDelta_threshold:
  "(of_nat (card {i. i < length (cf_chars cur)
                     \<and> (charChanged prev cur i \<or> colorChanged prev cur includeColors i)})
       > (4 / 10 :: rat) * of_nat (length (cf_chars cur))
     \<longrightarrow> computeDelta prev cur includeColors
           = Full (cf_chars cur) (if includeColors then Some (cf_colors cur) else None)
         \<and> (\<forall>changes. computeDelta prev cur includeColors \<noteq> Delta changes))
   \<and> (length (cf_chars prev) = length (cf_chars cur)
      \<and> (includeColors \<longrightarrow> length (cf_colors prev) = 3 * length (cf_chars cur)
                           \<and> length (cf_colors cur) = 3 * length (cf_chars cur))
      \<and> of_nat (card {i. i < length (cf_chars cur) \<and> cellDiffers includeColors prev cur i})
           > (4 / 10 :: rat) * of_nat (length (cf_chars cur))
     \<longrightarrow> computeDelta prev cur includeColors
           = Full (cf_chars cur) (if includeColors then Some (cf_colors cur) else None)
         \<and> (\<forall>changes. computeDelta prev cur includeColors \<noteq> Delta changes))"
proof (intro conjI impI)
  assume "of_nat (card {i. i < length (cf_chars cur)
                     \<and> (charChanged prev cur i \<or> colorChanged prev cur includeColors i)})
       > (4 / 10 :: rat) * of_nat (length (cf_chars cur))"
  then have full: "computeDelta prev cur includeColors
           = Full (cf_chars cur) (if includeColors then Some (cf_colors cur) else None)"
    by (intro computeDelta_many_changes) (simp add: length_deltaChanges_code)
  then show "computeDelta prev cur includeColors
           = Full (cf_chars cur) (if includeColors then Some (cf_colors cur) else None)" .
  from full show "\<forall>changes. computeDelta prev cur includeColors \<noteq> Delta changes" by simp
next
  assume a: "length (cf_chars prev) = length (cf_chars cur)
      \<and> (includeColors \<longrightarrow> length (cf_colors prev) = 3 * length (cf_chars cur)
                           \<and> length (cf_colors cur) = 3 * length (cf_chars cur))
      \<and> of_nat (card {i. i < length (cf_chars cur) \<and> cellDiffers includeColors prev cur i})
           > (4 / 10 :: rat) * of_nat (length (cf_chars cur))"
  then have "length (deltaChanges prev cur includeColors)
           = card {i. i < length (cf_chars cur) \<and> cellDiffers includeColors prev cur i}"
    by (intro length_deltaChanges) auto
  with a have full: "computeDelta prev cur includeColors
           = Full (cf_chars cur) (if includeColors then Some (cf_colors cur) else None)"
    by (intro computeDelta_many_changes) simp
  then show "computeDelta prev cur includeColors
           = Full (cf_chars cur) (if includeColors then Some (cf_colors cur) else None)" .
  from full show "\<forall>changes. computeDelta prev cur includeColors \<noteq> Delta changes" by simp
qed

theorem computeDelta_threshold_witness:
  "length (cf_chars exPrev) = length (cf_chars exCur)
   \<and> of_nat (card {i. i < length (cf_chars exCur) \<and> cellDiffers False exPrev exCur i})
           > (4 / 10 :: rat) * of_nat (length (cf_chars exCur))
   \<and> of_nat (card {i. i < length (cf_chars exCur)
                     \<and> (charChanged exPrev exCur i \<or> colorChanged exPrev exCur False i)})
       > (4 / 10 :: rat) * of_nat (length (cf_chars exCur))
   \<and> computeDelta exPrev exCur False = Full [35, 35, 35, 32, 32] None"
proof -
  have h1: "length (cf_chars exPrev) = length (cf_chars exCur)"
    by (simp add: exPrev_def exCur_def)
  have h2: "False \<longrightarrow> length (cf_colors exPrev) = 3 * length (cf_chars exCur)
                           \<and> length (cf_colors exCur) = 3 * length (cf_chars exCur)" by simp
  have l: "length (deltaChanges exPrev exCur False) = 3" by code_simp
  have h3: "of_nat (card {i. i < length (cf_chars exCur) \<and> cellDiffers False exPrev exCur i})
           > (4 / 10 :: rat) * of_nat (length (cf_chars exCur))"
    using l length_deltaChanges[OF h1 h2] by (simp add: exCur_def)
  have h4: "of_nat (card {i. i < length (cf_chars exCur)
                     \<and> (charChanged exPrev exCur i \<or> colorChanged exPrev exCur False i)})
       > (4 / 10 :: rat) * of_nat (length (cf_chars exCur))"
    using l length_deltaChanges_code[of exPrev exCur False] by (simp add: exCur_def)
  from computeDelta_threshold[of exCur exPrev False] h1 h2 h3 h4 show ?thesis
    by (simp add: exCur_def)
qed

section \<open>Applying a delta\<close>

lemma splice_step_update:
  assumes "length a = length b" "j < length a"
  shows "(take j a @ drop j b)[j := a ! j] = take (Suc j) a @ drop (Suc j) b"
proof -
  have d: "drop j b = b ! j # drop (Suc j) b"
    using assms by (simp add: Cons_nth_drop_Suc)
  have "(take j a @ drop j b)[j := a ! j] = take j a @ (drop j b)[0 := a ! j]"
    using assms by (simp add: list_update_append)
  also have "\<dots> = take j a @ a ! j # drop (Suc j) b"
    by (subst d) simp
  also have "\<dots> = take (Suc j) a @ drop (Suc j) b"
    using assms by (simp add: take_Suc_conv_app_nth)
  finally show ?thesis .
qed

lemma splice_step_same:
  assumes "length a = length b" "j < length a" "a ! j = b ! j"
  shows "take j a @ drop j b = take (Suc j) a @ drop (Suc j) b"
proof -
  have "drop j b = b ! j # drop (Suc j) b"
    using assms by (simp add: Cons_nth_drop_Suc)
  with assms show ?thesis by (simp add: take_Suc_conv_app_nth)
qed

lemma array_join_Some [simp]: "array_join (map Some s) = s"
  by (induction s) (simp_all add: array_join_def)

lemma array_set_inside:
  assumes "i < length xs" "length xs \<le> 2 ^ 32 - 1"
  shows "array_set xs (int i) v = xs[i := Some v]"
proof -
  have "int i < 2 ^ 32 - 1" using assms by simp
  with assms show ?thesis by (simp add: array_set_def)
qed

lemma typed_set_inside:
  "i < length xs \<Longrightarrow> typed_set xs (int i) (unat b) = xs[i := b]"
  by (simp add: typed_set_def)


lemma typed_set_nat:
  "i = int j \<Longrightarrow> j < length xs \<Longrightarrow> typed_set xs i (unat b) = xs[j := b]"
  by (simp add: typed_set_def)

lemma splice3_update:
  assumes "length a = length b" "j + 2 < length a"
  shows "(take j a @ drop j b)[j := a ! j, j + 1 := a ! (j + 1), j + 2 := a ! (j + 2)]
           = take (j + 3) a @ drop (j + 3) b"
proof -
  have 1: "(take j a @ drop j b)[j := a ! j] = take (j + 1) a @ drop (j + 1) b"
    using splice_step_update[of a b j] assms by simp
  have 2: "(take (j + 1) a @ drop (j + 1) b)[j + 1 := a ! (j + 1)] = take (j + 2) a @ drop (j + 2) b"
    using splice_step_update[of a b "j + 1"] assms by simp
  have 3: "(take (j + 2) a @ drop (j + 2) b)[j + 2 := a ! (j + 2)] = take (j + 3) a @ drop (j + 3) b"
    using splice_step_update[of a b "j + 2"] assms by (simp add: numeral_3_eq_3)
  show ?thesis by (simp only: 1 2 3)
qed

lemma splice3_same:
  assumes "length a = length b" "j + 2 < length a"
    "a ! j = b ! j" "a ! (j + 1) = b ! (j + 1)" "a ! (j + 2) = b ! (j + 2)"
  shows "take j a @ drop j b = take (j + 3) a @ drop (j + 3) b"
proof -
  have "take j a @ drop j b = take (j + 1) a @ drop (j + 1) b"
    using splice_step_same[of a b j] assms by simp
  also have "\<dots> = take (j + 2) a @ drop (j + 2) b"
    using splice_step_same[of a b "j + 1"] assms by simp
  also have "\<dots> = take (j + 3) a @ drop (j + 3) b"
    using splice_step_same[of a b "j + 2"] assms by (simp add: numeral_3_eq_3)
  finally show ?thesis .
qed

lemma applyChange_spliced:
  assumes len: "length (cf_chars prev) = length (cf_chars cur)"
    and bound: "length (cf_chars cur) \<le> 2 ^ 32 - 1"
    and cols: "includeColors \<longrightarrow> length (cf_colors prev) = 3 * length (cf_chars cur)
                           \<and> length (cf_colors cur) = 3 * length (cf_chars cur)"
    and k: "k < length (cf_chars cur)"
  shows "applyChange includeColors (spliced includeColors prev cur k) (mkChange cur includeColors k)
           = spliced includeColors prev cur (Suc k)"
proof -
  let ?c = "cf_chars cur" and ?p = "cf_chars prev"
  let ?xs = "map Some (take k ?c @ drop k ?p)"
  have lx: "length ?xs = length ?c" using len k by simp
  have "array_set ?xs (int k) (?c ! k) = ?xs[k := Some (?c ! k)]"
    using k bound lx by (intro array_set_inside) simp_all
  also have "\<dots> = map Some ((take k ?c @ drop k ?p)[k := ?c ! k])"
    by (simp add: map_update)
  also have "\<dots> = map Some (take (Suc k) ?c @ drop (Suc k) ?p)"
    using splice_step_update[of ?c ?p k] len k by simp
  finally have chars: "array_set ?xs (int k) (?c ! k) = map Some (take (Suc k) ?c @ drop (Suc k) ?p)" .
  show ?thesis
  proof (cases includeColors)
    case False
    with chars show ?thesis
      by (simp add: applyChange_def spliced_def mkChange_def Let_def)
  next
    case True
    let ?a = "cf_colors cur" and ?b = "cf_colors prev"
    let ?ys = "take (3 * k) ?a @ drop (3 * k) ?b"
    have la: "length ?a = length ?b" "3 * k + 2 < length ?a" using True cols k by auto
    have ly: "length ?ys = length ?a" using la by simp
    have g: "js_get ?a (int k * 3) = Some (?a ! (3 * k))"
      "js_get ?a (int k * 3 + 1) = Some (?a ! (3 * k + 1))"
      "js_get ?a (int k * 3 + 2) = Some (?a ! (3 * k + 2))"
      using la by (simp_all add: js_get_def nat_add_distrib nat_mult_distrib mult.commute)
    have t1: "typed_set ?ys (int k * 3) (unat (?a ! (3 * k))) = ?ys[3 * k := ?a ! (3 * k)]"
      using la ly by (intro typed_set_nat) simp_all
    have t2: "typed_set (?ys[3 * k := ?a ! (3 * k)]) (int k * 3 + 1) (unat (?a ! (3 * k + 1)))
                = ?ys[3 * k := ?a ! (3 * k), 3 * k + 1 := ?a ! (3 * k + 1)]"
      using la ly by (intro typed_set_nat) simp_all
    have t3: "typed_set (?ys[3 * k := ?a ! (3 * k), 3 * k + 1 := ?a ! (3 * k + 1)])
                (int k * 3 + 2) (unat (?a ! (3 * k + 2)))
                = ?ys[3 * k := ?a ! (3 * k), 3 * k + 1 := ?a ! (3 * k + 1),
                      3 * k + 2 := ?a ! (3 * k + 2)]"
      using la ly by (intro typed_set_nat) simp_all
    have "typed_set (typed_set (typed_set ?ys (int k * 3) (unat (?a ! (3 * k))))
                       (int k * 3 + 1) (unat (?a ! (3 * k + 1))))
            (int k * 3 + 2) (unat (?a ! (3 * k + 2)))
          = ?ys[3 * k := ?a ! (3 * k), 3 * k + 1 := ?a ! (3 * k + 1), 3 * k + 2 := ?a ! (3 * k + 2)]"
      by (simp only: t1 t2 t3)
    also have "\<dots> = take (3 * k + 3) ?a @ drop (3 * k + 3) ?b"
      using la by (intro splice3_update) simp_all
    finally have colors: "typed_set (typed_set (typed_set ?ys (int k * 3) (unat (?a ! (3 * k))))
                       (int k * 3 + 1) (unat (?a ! (3 * k + 1))))
            (int k * 3 + 2) (unat (?a ! (3 * k + 2)))
          = take (3 * Suc k) ?a @ drop (3 * Suc k) ?b" by (simp add: add.commute)
    from True chars colors g show ?thesis
      by (simp add: applyChange_def spliced_def mkChange_def Let_def orZero_def)
  qed
qed

lemma unchanged_spliced:
  assumes len: "length (cf_chars prev) = length (cf_chars cur)"
    and cols: "includeColors \<longrightarrow> length (cf_colors prev) = 3 * length (cf_chars cur)
                           \<and> length (cf_colors cur) = 3 * length (cf_chars cur)"
    and k: "k < length (cf_chars cur)"
    and same: "\<not> cellDiffers includeColors prev cur k"
  shows "spliced includeColors prev cur k = spliced includeColors prev cur (Suc k)"
proof -
  have chars: "take k (cf_chars cur) @ drop k (cf_chars prev)
                 = take (Suc k) (cf_chars cur) @ drop (Suc k) (cf_chars prev)"
    using same len k by (intro splice_step_same) (simp_all add: cellDiffers_def)
  show ?thesis
  proof (cases includeColors)
    case False
    with chars show ?thesis by (simp add: spliced_def)
  next
    case True
    have "take (3 * k) (cf_colors cur) @ drop (3 * k) (cf_colors prev)
            = take (3 * k + 3) (cf_colors cur) @ drop (3 * k + 3) (cf_colors prev)"
      using True same cols k by (intro splice3_same) (auto simp: cellDiffers_def)
    with True chars show ?thesis by (simp add: spliced_def add.commute)
  qed
qed

lemma foldl_changes_spliced:
  assumes len: "length (cf_chars prev) = length (cf_chars cur)"
    and bound: "length (cf_chars cur) \<le> 2 ^ 32 - 1"
    and cols: "includeColors \<longrightarrow> length (cf_colors prev) = 3 * length (cf_chars cur)
                           \<and> length (cf_colors cur) = 3 * length (cf_chars cur)"
    and k: "k \<le> length (cf_chars cur)"
  shows "foldl (applyChange includeColors) (spliced includeColors prev cur 0)
           (map (mkChange cur includeColors)
              (filter (\<lambda>i. charChanged prev cur i \<or> colorChanged prev cur includeColors i) [0..<k]))
         = spliced includeColors prev cur k"
  using k
proof (induction k)
  case 0
  then show ?case by simp
next
  case (Suc k)
  then have k: "k < length (cf_chars cur)" by simp
  have iff: "(charChanged prev cur k \<or> colorChanged prev cur includeColors k)
               \<longleftrightarrow> cellDiffers includeColors prev cur k"
    using changed_iff_cellDiffers[OF len cols k] .
  show ?case
  proof (cases "cellDiffers includeColors prev cur k")
    case True
    then show ?thesis
      using Suc.IH k iff applyChange_spliced[OF len bound cols k] by simp
  next
    case False
    then show ?thesis
      using Suc.IH k iff unchanged_spliced[OF len cols k False] by simp
  qed
qed

lemma applyFrame_computeDelta:
  assumes len: "length (cf_chars prev) = length (cf_chars cur)"
    and bound: "length (cf_chars cur) \<le> 2 ^ 32 - 1"
    and cols: "includeColors \<longrightarrow> length (cf_colors prev) = 3 * length (cf_chars cur)
                           \<and> length (cf_colors cur) = 3 * length (cf_chars cur)"
  shows "applyFrame includeColors (gridOf includeColors prev) (computeDelta prev cur includeColors)
           = gridOf includeColors cur"
proof (cases "of_nat (length (deltaChanges prev cur includeColors))
                > of_nat (length (cf_chars cur)) * DELTA_THRESHOLD")
  case True
  then show ?thesis by (simp add: computeDelta_def Let_def gridOf_def)
next
  case False
  have t: "take (2 ^ 32 - 1) (cf_chars prev) = cf_chars prev"
    using len bound by simp
  have start: "(map Some (cf_chars prev), snd (gridOf includeColors prev))
                 = spliced includeColors prev cur 0"
    by (simp add: spliced_def gridOf_def)
  have "foldl (applyChange includeColors) (spliced includeColors prev cur 0)
          (deltaChanges prev cur includeColors)
        = spliced includeColors prev cur (length (cf_chars cur))"
    unfolding deltaChanges_def
    by (rule foldl_changes_spliced[OF len bound cols]) simp
  moreover have "spliced includeColors prev cur (length (cf_chars cur))
                   = (map Some (cf_chars cur), snd (gridOf includeColors cur))"
    using len cols by (auto simp: spliced_def gridOf_def)
  ultimately have "foldl (applyChange includeColors)
                     (map Some (cf_chars prev), snd (gridOf includeColors prev))
                     (deltaChanges prev cur includeColors)
                   = (map Some (cf_chars cur), snd (gridOf includeColors cur))"
    using start by simp
  with False t show ?thesis
    by (simp add: computeDelta_def Let_def gridOf_def)
qed

lemma runFrames_encodeFrames_Some:
  assumes "\<forall>g \<in> set (prev # grids).
             length (cf_chars g) = n \<and> (includeColors \<longrightarrow> length (cf_colors g) = 3 * n)"
    and "n \<le> 2 ^ 32 - 1"
  shows "runFrames includeColors (gridOf includeColors prev)
           (encodeFrames includeColors (Some prev) grids)
         = map (gridOf includeColors) grids"
  using assms
proof (induction grids arbitrary: prev)
  case Nil
  then show ?case by simp
next
  case (Cons g grids)
  have "applyFrame includeColors (gridOf includeColors prev) (computeDelta prev g includeColors)
          = gridOf includeColors g"
    using Cons.prems by (intro applyFrame_computeDelta) auto
  moreover have "runFrames includeColors (gridOf includeColors g)
                   (encodeFrames includeColors (Some g) grids)
                 = map (gridOf includeColors) grids"
    using Cons.prems by (intro Cons.IH) auto
  ultimately show ?case by (simp add: Let_def)
qed

lemma runFrames_encodeFrames_None:
  assumes "\<forall>g \<in> set grids.
             length (cf_chars g) = n \<and> (includeColors \<longrightarrow> length (cf_colors g) = 3 * n)"
    and "n \<le> 2 ^ 32 - 1"
    and "\<not> includeColors \<longrightarrow> snd st = None"
  shows "runFrames includeColors st (encodeFrames includeColors None grids)
         = map (gridOf includeColors) grids"
proof (cases grids)
  case Nil
  then show ?thesis by simp
next
  case (Cons g rest)
  have "applyFrame includeColors st (createFullFrame g includeColors) = gridOf includeColors g"
    using assms(3) by (cases st) (auto simp: createFullFrame_def gridOf_def)
  moreover have "runFrames includeColors (gridOf includeColors g)
                   (encodeFrames includeColors (Some g) rest)
                 = map (gridOf includeColors) rest"
    using assms(1,2) Cons by (intro runFrames_encodeFrames_Some) auto
  ultimately show ?thesis using Cons by (simp add: Let_def)
qed

lemma splitLines_chopLines:
  assumes "0 < cols"
  shows "splitLines cols s i acc = Some (acc @ chopLines cols (drop i s))"
proof (induction "length s - i" arbitrary: i acc rule: less_induct)
  case less
  show ?case
  proof (cases "i < length s")
    case True
    then have ne: "drop i s \<noteq> []" by simp
    have "splitLines cols s i acc
            = splitLines cols s (i + cols) (acc @ [take cols (drop i s)])"
      using True by (subst splitLines.simps) simp
    also have "\<dots> = Some ((acc @ [take cols (drop i s)]) @ chopLines cols (drop (i + cols) s))"
      using True assms by (intro less) simp
    also have "chopLines cols (drop i s)
                 = take cols (drop i s) # chopLines cols (drop (i + cols) s)"
      using ne assms by (subst chopLines.simps) (simp add: add.commute)
    then have "(acc @ [take cols (drop i s)]) @ chopLines cols (drop (i + cols) s)
                 = acc @ chopLines cols (drop i s)" by simp
    finally show ?thesis .
  next
    case False
    then have "chopLines cols (drop i s) = []"
      by (subst chopLines.simps) simp
    with False show ?thesis by (subst splitLines.simps) simp
  qed
qed

lemma snapshot_total:
  "0 < cols \<Longrightarrow>
     snapshot cols st = Some \<lparr>df_text = joinLines (chopLines cols (fst st)), df_colors = snd st\<rparr>"
  by (simp add: snapshot_def splitLines_chopLines)

lemma allSome_map_Some: "allSome (map (\<lambda>x. Some (f x)) xs) = Some (map f xs)"
  by (induction xs) simp_all

text \<open>
  Claim C1. For two grids of the same size (at most \<open>2^32 - 1\<close> cells, the longest
  array \<^verbatim>\<open>split\<close> returns; with colours, three colour bytes per cell), applying the
  frame that \<^verbatim>\<open>computeDelta\<close> makes from them to the previous grid gives the
  current grid, symbols and (with colours) colours. Consequently the frames the
  preprocessor encodes from a sequence of such grids, replayed by the player from its
  initial buffers, give the original grids one after the other, and
  \<^verbatim>\<open>preDecodeFrames\<close> ends and stores for each grid its lines and its colours.
\<close>

theorem delta_replay:
  assumes wf: "\<forall>g \<in> set (prev # cur # grids).
                 length (cf_chars g) = n \<and> (includeColors \<longrightarrow> length (cf_colors g) = 3 * n)"
    and n: "n \<le> 2 ^ 32 - 1"
    and inc: "includeColors = (m_colorMode meta \<noteq> Mono)"
    and cols: "0 < m_cols meta"
  shows "applyFrame includeColors (gridOf includeColors prev) (computeDelta prev cur includeColors)
           = gridOf includeColors cur
       \<and> runFrames includeColors (initialBuffers meta) (encodeFrames includeColors None grids)
           = map (gridOf includeColors) grids
       \<and> preDecodeFrames \<lparr>a_meta = meta, a_frames = encodeFrames includeColors None grids\<rparr>
           = Some (map (\<lambda>g. \<lparr>df_text = joinLines (chopLines (m_cols meta) (cf_chars g)),
                              df_colors = (if includeColors then Some (cf_colors g) else None)\<rparr>)
                     grids)"
proof -
  have step: "applyFrame includeColors (gridOf includeColors prev)
                (computeDelta prev cur includeColors) = gridOf includeColors cur"
    using wf n by (intro applyFrame_computeDelta) auto
  have run: "runFrames includeColors (initialBuffers meta) (encodeFrames includeColors None grids)
               = map (gridOf includeColors) grids"
    using wf n inc by (intro runFrames_encodeFrames_None[where n = n]) (auto simp: initialBuffers_def)
  have "preDecodeFrames \<lparr>a_meta = meta, a_frames = encodeFrames includeColors None grids\<rparr>
          = allSome (map (snapshot (m_cols meta)) (map (gridOf includeColors) grids))"
    using run inc by (simp add: preDecodeFrames_def Let_def)
  also have "\<dots> = allSome (map (\<lambda>g. Some \<lparr>df_text = joinLines (chopLines (m_cols meta) (cf_chars g)),
                              df_colors = (if includeColors then Some (cf_colors g) else None)\<rparr>) grids)"
    using cols by (simp add: snapshot_total gridOf_def comp_def)
  also have "\<dots> = Some (map (\<lambda>g. \<lparr>df_text = joinLines (chopLines (m_cols meta) (cf_chars g)),
                              df_colors = (if includeColors then Some (cf_colors g) else None)\<rparr>) grids)"
    by (rule allSome_map_Some)
  finally show ?thesis using step run by simp
qed

theorem delta_replay_witness:
  "length (cf_chars exGrid1) = 4 \<and> length (cf_colors exGrid1) = 3 * 4
   \<and> length (cf_chars exGrid2) = 4 \<and> length (cf_colors exGrid2) = 3 * 4
   \<and> (4::nat) \<le> 2 ^ 32 - 1 \<and> True = (m_colorMode exMeta \<noteq> Mono) \<and> 0 < m_cols exMeta
   \<and> computeDelta exGrid1 exGrid2 True
       = Delta [\<lparr>dc_index = 1, dc_char = 35, dc_colorR = Some 3, dc_colorG = Some 4,
                 dc_colorB = Some 5\<rparr>]
   \<and> applyFrame True (gridOf True exGrid1) (computeDelta exGrid1 exGrid2 True)
       = gridOf True exGrid2
   \<and> runFrames True (initialBuffers exMeta) (encodeFrames True None [exGrid1, exGrid2, exGrid2])
       = [gridOf True exGrid1, gridOf True exGrid2, gridOf True exGrid2]"
proof -
  have l: "length (cf_chars exGrid1) = 4" "length (cf_colors exGrid1) = 3 * 4"
    "length (cf_chars exGrid2) = 4" "length (cf_colors exGrid2) = 3 * 4"
    by (simp_all add: exGrid1_def exGrid2_def)
  then have wf: "\<forall>g \<in> set (exGrid1 # exGrid2 # [exGrid1, exGrid2, exGrid2]).
       length (cf_chars g) = 4 \<and> (True \<longrightarrow> length (cf_colors g) = 3 * 4)"
    by simp
  have n: "(4::nat) \<le> 2 ^ 32 - 1" by simp
  have inc: "True = (m_colorMode exMeta \<noteq> Mono)" by (simp add: exMeta_def)
  have cols: "0 < m_cols exMeta" by (simp add: exMeta_def)
  have d: "computeDelta exGrid1 exGrid2 True
       = Delta [\<lparr>dc_index = 1, dc_char = 35, dc_colorR = Some 3, dc_colorG = Some 4,
                 dc_colorB = Some 5\<rparr>]"
    by code_simp
  from delta_replay[OF wf n inc cols] l n inc cols d show ?thesis by simp
qed


section \<open>Variable-length integers\<close>











lemma encodeVarInt_nonempty: "encodeVarInt n \<noteq> []"
  by (subst encodeVarInt.simps) simp





section \<open>Decoding what the writer wrote\<close>














section \<open>Resolving normalised frames\<close>








lemma decodeBinary_no_palette:
  "decodeBinary bytes = Inr decoded \<Longrightarrow> m_palette (a_meta decoded) = None"
  by (auto simp: decodeBinary_def Let_def split: if_splits)

lemma decodeBinary_never_truncated: "decodeBinary bytes \<noteq> Inl TruncatedStream"
  by (simp add: decodeBinary_def Let_def)







section \<open>The writer and the decoder never reject\<close>









text \<open>
  Claim C6, as amended. \<^verbatim>\<open>convertToASCII\<close> checks no dimension and never fails with
  \<open>InvalidDimensions\<close>. With \<open>cols = 0\<close> and a non-zero width it returns the empty
  grid; with a zero width it stops with the \<open>RangeError\<close> of an invalid array
  length; with positive \<open>cols\<close> and width it returns the empty grid of zero rows for
  a zero height and stops with the same \<open>RangeError\<close> for a negative height.
\<close>

theorem convertToASCII_no_dimension_check:
  "convertToASCII imageData options \<noteq> Inl InvalidDimensions
   \<and> (c_cols options = 0 \<and> i_width imageData \<noteq> 0
        \<longrightarrow> convertToASCII imageData options
              = Inr \<lparr>cf_chars = [], cf_colors = [], cf_rows = 0, cf_cols = 0\<rparr>)
   \<and> (i_width imageData = 0 \<longrightarrow> convertToASCII imageData options = Inl RangeError)
   \<and> (0 < c_cols options \<and> 0 < i_width imageData \<and> i_height imageData = 0
        \<longrightarrow> convertToASCII imageData options
              = Inr \<lparr>cf_chars = [], cf_colors = [], cf_rows = 0, cf_cols = c_cols options\<rparr>)
   \<and> (0 < c_cols options \<and> 0 < i_width imageData \<and> i_height imageData < 0
        \<longrightarrow> convertToASCII imageData options = Inl RangeError)"
proof -
  have neg: "convertToASCII imageData options = Inl RangeError"
    if "0 < c_cols options" "0 < i_width imageData" "i_height imageData < 0"
  proof -
    let ?cellH = "(of_int (i_width imageData) / of_int (c_cols options)) / charAspect :: rat"
    have "0 < ?cellH" using that by (simp add: charAspect_def)
    moreover have "(of_int (i_height imageData) :: rat) < 0"
      using that(3) by simp
    ultimately have "of_int (i_height imageData) / ?cellH < 0"
      by (rule divide_neg_pos[rotated])
    then have "\<lfloor>of_int (i_height imageData) / ?cellH\<rfloor> < 0"
      by (simp only: floor_less_iff of_int_0)
    then have "\<lfloor>of_int (i_height imageData) / ?cellH\<rfloor> * c_cols options < 0"
      using that(1) by (rule mult_neg_pos)
    then have "\<lfloor>of_int (i_height imageData) / ?cellH\<rfloor> * c_cols options < 0
               \<or> 2 ^ 32 - 1 < \<lfloor>of_int (i_height imageData) / ?cellH\<rfloor> * c_cols options"
      by (rule disjI1)
    moreover have "c_cols options \<noteq> 0" "i_width imageData \<noteq> 0" using that by simp_all
    ultimately show ?thesis
      unfolding convertToASCII_def Let_def by (simp only: if_True if_False)
  qed
  have zero: "convertToASCII imageData options
              = Inr \<lparr>cf_chars = [], cf_colors = [], cf_rows = 0, cf_cols = c_cols options\<rparr>"
    if "0 < c_cols options" "0 < i_width imageData" "i_height imageData = 0"
    using that by (simp add: convertToASCII_def Let_def array_join_def)
  show ?thesis using neg zero by (simp add: convertToASCII_def Let_def)
qed

theorem convertToASCII_no_dimension_check_witness:
  "convertToASCII \<lparr>i_data = exGray 2, i_width = 2, i_height = 1\<rparr>
       \<lparr>c_cols = 0, c_ramp = minimal_ramp, c_colorMode = Mono\<rparr>
     = Inr \<lparr>cf_chars = [], cf_colors = [], cf_rows = 0, cf_cols = 0\<rparr>
   \<and> convertToASCII \<lparr>i_data = [], i_width = 0, i_height = 1\<rparr>
       \<lparr>c_cols = 4, c_ramp = minimal_ramp, c_colorMode = Mono\<rparr>
     = Inl RangeError"
  using convertToASCII_no_dimension_check[of "\<lparr>i_data = exGray 2, i_width = 2, i_height = 1\<rparr>"
          "\<lparr>c_cols = 0, c_ramp = minimal_ramp, c_colorMode = Mono\<rparr>"]
    convertToASCII_no_dimension_check[of "\<lparr>i_data = [], i_width = 0, i_height = 1\<rparr>"
          "\<lparr>c_cols = 4, c_ramp = minimal_ramp, c_colorMode = Mono\<rparr>"]
  by simp

text \<open>
  Claim C6 as stated fails: with \<open>cols = 0\<close> on a 2 by 1 raster the converter returns
  a grid (the empty one) and not \<open>InvalidDimensions\<close>.
\<close>

theorem convertToASCII_zero_cols_counterexample:
  "c_cols \<lparr>c_cols = 0, c_ramp = minimal_ramp, c_colorMode = Mono\<rparr> < 1
   \<and> convertToASCII \<lparr>i_data = exGray 2, i_width = 2, i_height = 1\<rparr>
        \<lparr>c_cols = 0, c_ramp = minimal_ramp, c_colorMode = Mono\<rparr>
       = Inr \<lparr>cf_chars = [], cf_colors = [], cf_rows = 0, cf_cols = 0\<rparr>
   \<and> convertToASCII \<lparr>i_data = exGray 2, i_width = 2, i_height = 1\<rparr>
        \<lparr>c_cols = 0, c_ramp = minimal_ramp, c_colorMode = Mono\<rparr>
       \<noteq> Inl InvalidDimensions"
  by (simp add: convertToASCII_def)


section \<open>Converting a mid-gray raster\<close>




















end
